theory Spec2Isabelle
  imports Main "HOL-Library.Sublist"
begin

section \<open>The impression manager of go-split-commons (provisional/impmanager.go)\<close>

text \<open>
  The manager decides, for every impression, whether it goes to the backend log and
  whether it goes to the listener. Its own state is an immutable configuration; the
  mutable state lives in the collaborators it holds (the impression observer, the
  impressions counter, the runtime telemetry) and in the impressions the caller owns.
  All of that mutable state is gathered in one record, the world, which every
  operation takes and returns.
\<close>

subsection \<open>Data\<close>

text \<open>Go's \<open>int64\<close>. The manager only compares such values and never computes with
  them, so no wrap-around can occur and they are read as integers.\<close>

type_synonym int64 = int

text \<open>Modelled from the spec: \<open>dtos.Impression\<close> is declared outside this file. The manager
  reads \<open>FeatureName\<close> and reads and writes \<open>Pt\<close>; every other attribute is opaque to it
  and lives in the extension part of the record.\<close>

record Impression =
  FeatureName :: string
  Pt :: int64

text \<open>Modelled from the spec: \<open>conf.ManagerConfig\<close> is declared outside this file. The
  constructor reads its field \<open>ListenerEnabled\<close>; the rest of the configuration is only
  looked at by the policy functions \<open>util.ShouldAddPreviousTime\<close> and
  \<open>util.ShouldBeOptimized\<close>.\<close>

record ManagerConfig =
  ListenerEnabled :: bool

datatype error = ConfigError | NilPointerDereference

text \<open>A Go pointer (or interface value): \<open>nil\<close>, or the address of an object.\<close>

datatype ptr = nil | Ptr nat

text \<open>The statistic kinds of the telemetry package; the manager uses one.\<close>

datatype stat = ImpressionsDeduped

text \<open>A slice of impressions as the caller hands it over: the address of its first cell
  and its length. The cells of the slice are consecutive addresses of the heap.\<close>

record slice =
  array :: nat
  len :: nat

definition cells :: "slice \<Rightarrow> nat list" where
  "cells s = map (\<lambda>k. array s + k) [0..<len s]"

text \<open>The struct \<open>ImpressionManagerImpl\<close>. The field \<open>impressionObserver\<close> is always the
  observer made by the constructor; the state of that observer is the component
  \<open>observer\<close> of the world.\<close>

record ImpressionManagerImpl =
  impressionsCounter :: ptr
  shouldAddPreviousTime :: bool
  isOptimized :: bool
  listenerEnabled :: bool
  runtimeTelemetry :: ptr

text \<open>The mutable state around the manager:
  \<^item> \<open>observer\<close>: the state of the impression observer (the cache of last-seen times);
  \<^item> \<open>heap\<close>: the impressions the callers own, by address;
  \<^item> \<open>counters\<close>: for every impressions counter, the calls of \<open>Inc\<close> it has received,
    oldest first, as (feature name, time, amount);
  \<^item> \<open>telemetry\<close>: for every telemetry producer, the calls of
    \<open>RecordImpressionsStats\<close> it has received, oldest first;
  \<^item> \<open>ticks\<close>: how many times the clock has been read.\<close>

record ('z, 'o) world =
  observer :: 'o
  heap :: "nat \<Rightarrow> 'z Impression_scheme"
  counters :: "nat \<Rightarrow> (string \<times> int64 \<times> int64) list"
  telemetry :: "nat \<Rightarrow> (stat \<times> int64) list"
  ticks :: nat

text \<open>The functions of other packages that the manager calls. Their code is outside this
  file, so they are parameters of the model:
  \<^item> \<open>NewImpressionObserver size\<close> makes the observer or fails;
  \<^item> \<open>TestAndSet obs featureName impression\<close> returns the previous time of the
    impression and the new state of the observer (the Go function also returns an
    error, which the manager discards; it gets a pointer to the impression and is taken
    only to read it);
  \<^item> \<open>ShouldAddPreviousTime\<close>, \<open>ShouldBeOptimized\<close>: the policy functions of \<open>util\<close>;
  \<^item> \<open>TruncateTimeFrame\<close>: the start of the time frame of a time;
  \<^item> \<open>Now n\<close>: what \<open>time.Now().UTC().UnixNano()\<close> returns at the \<open>n\<close>-th reading of
    the clock.\<close>

record ('c, 'z, 'o) deps =
  NewImpressionObserver :: "int \<Rightarrow> error + 'o"
  TestAndSet :: "'o \<Rightarrow> string \<Rightarrow> 'z Impression_scheme \<Rightarrow> int64 \<times> 'o"
  ShouldAddPreviousTime :: "'c ManagerConfig_scheme \<Rightarrow> bool"
  ShouldBeOptimized :: "'c ManagerConfig_scheme \<Rightarrow> bool"
  TruncateTimeFrame :: "int64 \<Rightarrow> int64"
  Now :: "nat \<Rightarrow> int64"

subsection \<open>The collaborators at their interface\<close>

definition lastSeenCacheSize :: int where
  "lastSeenCacheSize = 500000"

text \<open>Modelled from the spec: \<open>ImpressionsCounter.Inc\<close> is outside this file. A call is
  recorded in the log of the counter it is made on. A call on a nil counter is taken to
  panic, as a Go method does when it reads a field of a nil receiver.\<close>

definition Inc :: "ptr \<Rightarrow> string \<Rightarrow> int64 \<Rightarrow> int64 \<Rightarrow> ('z, 'o) world \<Rightarrow> error + ('z, 'o) world" where
  "Inc c featureName timeFrame amount w =
     (case c of
        nil \<Rightarrow> Inl NilPointerDereference
      | Ptr a \<Rightarrow> Inr (w\<lparr>counters := (counters w)(a := counters w a @ [(featureName, timeFrame, amount)])\<rparr>))"

text \<open>Modelled from the spec: \<open>RecordImpressionsStats\<close> of the telemetry producer is
  outside this file. A call is recorded in the log of the producer it is made on. The
  producer is an interface value, and a call on a nil interface panics.\<close>

definition RecordImpressionsStats :: "ptr \<Rightarrow> stat \<Rightarrow> int64 \<Rightarrow> ('z, 'o) world \<Rightarrow> error + ('z, 'o) world" where
  "RecordImpressionsStats t kind v w =
     (case t of
        nil \<Rightarrow> Inl NilPointerDereference
      | Ptr a \<Rightarrow> Inr (w\<lparr>telemetry := (telemetry w)(a := telemetry w a @ [(kind, v)])\<rparr>))"

subsection \<open>The manager\<close>

text \<open>\<open>NewImpressionManager\<close> (lines 32 to 48): the manager and the world with the new
  observer in it, or the error of \<open>NewImpressionObserver\<close>.\<close>

definition NewImpressionManager ::
  "('c, 'z, 'o) deps \<Rightarrow> 'c ManagerConfig_scheme \<Rightarrow> ptr \<Rightarrow> ptr \<Rightarrow> ('z, 'o) world
     \<Rightarrow> error + (ImpressionManagerImpl \<times> ('z, 'o) world)" where
  "NewImpressionManager d managerConfig impressionCounter runtimeTelemetry' w =
     (case NewImpressionObserver d lastSeenCacheSize of
        Inl err \<Rightarrow> Inl err
      | Inr impressionObserver \<Rightarrow>
          Inr (\<lparr>impressionsCounter = impressionCounter,
                shouldAddPreviousTime = ShouldAddPreviousTime d managerConfig,
                isOptimized = (impressionCounter \<noteq> nil \<and> ShouldBeOptimized d managerConfig),
                listenerEnabled = ListenerEnabled managerConfig,
                runtimeTelemetry = runtimeTelemetry'\<rparr>,
               w\<lparr>observer := impressionObserver\<rparr>))"

text \<open>\<open>processImpression\<close> (lines 50 to 69). The impression is passed by value: the
  function works on its own copy, and the heap is not written.\<close>

definition processImpression ::
  "('c, 'z, 'o) deps \<Rightarrow> ImpressionManagerImpl \<Rightarrow> 'z Impression_scheme
     \<Rightarrow> 'z Impression_scheme list \<Rightarrow> 'z Impression_scheme list \<Rightarrow> ('z, 'o) world
     \<Rightarrow> error + (('z Impression_scheme list \<times> 'z Impression_scheme list) \<times> ('z, 'o) world)" where
  "processImpression d i impression forLog forListener w =
     (let (impression1, w1) =
            (if shouldAddPreviousTime i
             then (let (pt, obs) = TestAndSet d (observer w) (FeatureName impression) impression
                   in (impression\<lparr>Pt := pt\<rparr>, w\<lparr>observer := obs\<rparr>))
             else (impression, w));
          now = Now d (ticks w1);
          w2 = w1\<lparr>ticks := Suc (ticks w1)\<rparr>
      in case (if isOptimized i
               then Inc (impressionsCounter i) (FeatureName impression1) now 1 w2
               else Inr w2) of
           Inl e \<Rightarrow> Inl e
         | Inr w3 \<Rightarrow>
             Inr ((if \<not> isOptimized i \<or> Pt impression1 = 0 \<or> Pt impression1 < TruncateTimeFrame d now
                   then forLog @ [impression1] else forLog,
                   if listenerEnabled i then forListener @ [impression1] else forListener),
                  w3))"

text \<open>The loop of \<open>ProcessImpressions\<close> (lines 76 to 78) over the cells of the slice: each
  round copies the cell out of the heap and processes the copy.\<close>

fun range_loop ::
  "('c, 'z, 'o) deps \<Rightarrow> ImpressionManagerImpl \<Rightarrow> nat list
     \<Rightarrow> 'z Impression_scheme list \<Rightarrow> 'z Impression_scheme list \<Rightarrow> ('z, 'o) world
     \<Rightarrow> error + (('z Impression_scheme list \<times> 'z Impression_scheme list) \<times> ('z, 'o) world)" where
  "range_loop d i [] forLog forListener w = Inr ((forLog, forListener), w)"
| "range_loop d i (c # cs) forLog forListener w =
     (case processImpression d i (heap w c) forLog forListener w of
        Inl e \<Rightarrow> Inl e
      | Inr ((forLog', forListener'), w') \<Rightarrow> range_loop d i cs forLog' forListener' w')"

text \<open>\<open>ProcessImpressions\<close> (lines 72 to 82). The two result slices are made empty, with
  arrays of their own. The lengths are non-negative and the difference is at most the
  length of the input, so the conversion to \<open>int64\<close> loses nothing.\<close>

definition ProcessImpressions ::
  "('c, 'z, 'o) deps \<Rightarrow> ImpressionManagerImpl \<Rightarrow> slice \<Rightarrow> ('z, 'o) world
     \<Rightarrow> error + (('z Impression_scheme list \<times> 'z Impression_scheme list) \<times> ('z, 'o) world)" where
  "ProcessImpressions d i impressions w =
     (case range_loop d i (cells impressions) [] [] w of
        Inl e \<Rightarrow> Inl e
      | Inr ((forLog, forListener), w1) \<Rightarrow>
          (case RecordImpressionsStats (runtimeTelemetry i) ImpressionsDeduped
                  (int (len impressions) - int (length forLog)) w1 of
             Inl e \<Rightarrow> Inl e
           | Inr w2 \<Rightarrow> Inr ((forLog, forListener), w2)))"

text \<open>\<open>ProcessSingle\<close> (lines 86 to 97). The impression is passed by pointer and is
  read and written in the heap; a nil pointer panics where it is first dereferenced.
  The last disjunction is evaluated left to right and stops at the first true
  disjunct, so the impression is not read there when the manager is not optimized.\<close>

definition ProcessSingle ::
  "('c, 'z, 'o) deps \<Rightarrow> ImpressionManagerImpl \<Rightarrow> ptr \<Rightarrow> ('z, 'o) world
     \<Rightarrow> error + ((bool \<times> bool) \<times> ('z, 'o) world)" where
  "ProcessSingle d i impression w =
     (case (if shouldAddPreviousTime i
            then (case impression of
                    nil \<Rightarrow> Inl NilPointerDereference
                  | Ptr a \<Rightarrow>
                      (let (pt, obs) = TestAndSet d (observer w) (FeatureName (heap w a)) (heap w a)
                       in Inr (w\<lparr>observer := obs, heap := (heap w)(a := (heap w a)\<lparr>Pt := pt\<rparr>)\<rparr>)))
            else Inr w) of
        Inl e \<Rightarrow> Inl e
      | Inr w1 \<Rightarrow>
          (let now = Now d (ticks w1);
               w2 = w1\<lparr>ticks := Suc (ticks w1)\<rparr>
           in case (if isOptimized i
                    then (case impression of
                            nil \<Rightarrow> Inl NilPointerDereference
                          | Ptr a \<Rightarrow> Inc (impressionsCounter i) (FeatureName (heap w2 a)) now 1 w2)
                    else Inr w2) of
                Inl e \<Rightarrow> Inl e
              | Inr w3 \<Rightarrow>
                  (if \<not> isOptimized i then Inr ((True, listenerEnabled i), w3)
                   else (case impression of
                           nil \<Rightarrow> Inl NilPointerDereference
                         | Ptr a \<Rightarrow>
                             Inr ((Pt (heap w3 a) = 0 \<or> Pt (heap w3 a) < TruncateTimeFrame d now,
                                   listenerEnabled i), w3)))))"

subsection \<open>What a pass looks like from outside\<close>

text \<open>The impression as the decision sees it: the copy with \<open>Pt\<close> set from the observer
  when the manager adds previous times, and the impression as it came otherwise.\<close>

definition annotated ::
  "('c, 'z, 'o) deps \<Rightarrow> ImpressionManagerImpl \<Rightarrow> ('z, 'o) world \<Rightarrow> 'z Impression_scheme
     \<Rightarrow> 'z Impression_scheme" where
  "annotated d i w x =
     (if shouldAddPreviousTime i
      then x\<lparr>Pt := fst (TestAndSet d (observer w) (FeatureName x) x)\<rparr> else x)"

text \<open>The passes of a batch over the given cells, in order: for every cell the impression
  as the decision sees it and the time read for it. The world moves on from pass to pass
  as \<open>processImpression\<close> moves it.\<close>

fun passes ::
  "('c, 'z, 'o) deps \<Rightarrow> ImpressionManagerImpl \<Rightarrow> nat list \<Rightarrow> ('z, 'o) world
     \<Rightarrow> ('z Impression_scheme \<times> int64) list" where
  "passes d i [] w = []"
| "passes d i (c # cs) w =
     (annotated d i w (heap w c), Now d (ticks w)) #
     (case processImpression d i (heap w c) [] [] w of
        Inl e \<Rightarrow> []
      | Inr (r, w') \<Rightarrow> passes d i cs w')"

subsection \<open>A concrete setting\<close>

text \<open>Modelled from the spec: an impression with the time of its evaluation, which the
  identity cache stores.\<close>

record TimedImpression = Impression +
  Time :: int64

text \<open>Modelled from the spec: the configuration the two policy flags are derived from.\<close>

record PolicyConfig = ManagerConfig +
  addPreviousTime :: bool
  optimizeImpressions :: bool

text \<open>Modelled from the spec: the identity cache, bounded, most recently used entry first.
  Making it fails on a capacity that is not positive. \<open>TestAndSet\<close> returns the time
  stored for the key, or 0 when there is none, stores the time of the impression and
  drops the least recently used entries beyond the capacity.\<close>

record lru_cache =
  capacity :: nat
  entries :: "(string \<times> int64) list"

definition lru_New :: "int \<Rightarrow> error + lru_cache" where
  "lru_New n = (if n \<le> 0 then Inl ConfigError else Inr \<lparr>capacity = nat n, entries = []\<rparr>)"

definition lru_TestAndSet :: "lru_cache \<Rightarrow> string \<Rightarrow> TimedImpression \<Rightarrow> int64 \<times> lru_cache" where
  "lru_TestAndSet c key impression =
     ((case map_of (entries c) key of None \<Rightarrow> 0 | Some t \<Rightarrow> t),
      c\<lparr>entries := take (capacity c)
                      ((key, Time impression) # filter (\<lambda>e. fst e \<noteq> key) (entries c))\<rparr>)"

text \<open>Modelled from the spec: time frames of one hour, in nanoseconds.\<close>

definition hourly :: "int64 \<Rightarrow> int64" where
  "hourly t = t - t mod 3600000000000"

text \<open>A clock that starts at 1000 and advances by one at every reading.\<close>

definition clock :: "nat \<Rightarrow> int64" where
  "clock n = 1000 + int n"

definition sample_deps :: "(unit PolicyConfig_ext, unit TimedImpression_ext, lru_cache) deps" where
  "sample_deps =
     \<lparr>NewImpressionObserver = lru_New, TestAndSet = lru_TestAndSet,
      ShouldAddPreviousTime = addPreviousTime, ShouldBeOptimized = optimizeImpressions,
      TruncateTimeFrame = hourly, Now = clock\<rparr>"

text \<open>Cells 0 and 1 hold two impressions of feature f1, evaluated at 100 and at 150; cell
  2 holds an impression of feature f2 whose \<open>Pt\<close> the caller has set to 500. The observer
  is new, and no collaborator has been called.\<close>

definition sample_world :: "(unit TimedImpression_ext, lru_cache) world" where
  "sample_world =
     \<lparr>observer = \<lparr>capacity = 500000, entries = []\<rparr>,
      heap = (\<lambda>a. \<lparr>FeatureName = ''f1'', Pt = 0, Time = 100 + 50 * int a\<rparr>)
               (2 := \<lparr>FeatureName = ''f2'', Pt = 500, Time = 200\<rparr>),
      counters = (\<lambda>a. []),
      telemetry = (\<lambda>a. []),
      ticks = 0\<rparr>"

definition sample_config :: "bool \<Rightarrow> bool \<Rightarrow> bool \<Rightarrow> PolicyConfig" where
  "sample_config add opt lis =
     \<lparr>ListenerEnabled = lis, addPreviousTime = add, optimizeImpressions = opt\<rparr>"

text \<open>The manager that the constructor makes from \<open>sample_config add opt lis\<close>, the counter
  at address 0 and the telemetry producer at address 0.\<close>

definition sample_manager :: "bool \<Rightarrow> bool \<Rightarrow> bool \<Rightarrow> ImpressionManagerImpl" where
  "sample_manager add opt lis =
     \<lparr>impressionsCounter = Ptr 0, shouldAddPreviousTime = add, isOptimized = opt,
      listenerEnabled = lis, runtimeTelemetry = Ptr 0\<rparr>"

section \<open>Properties\<close>

subsection \<open>What the operations return\<close>

lemma NewImpressionManager_fields:
  assumes "NewImpressionManager d managerConfig impressionCounter tel w0 = Inr (i, w1)"
  shows "impressionsCounter i = impressionCounter"
    and "shouldAddPreviousTime i = ShouldAddPreviousTime d managerConfig"
    and "isOptimized i = (impressionCounter \<noteq> nil \<and> ShouldBeOptimized d managerConfig)"
    and "listenerEnabled i = ListenerEnabled managerConfig"
    and "runtimeTelemetry i = tel"
  using assms by (auto simp: NewImpressionManager_def split: sum.splits)

lemma built_counter:
  assumes "NewImpressionManager d managerConfig impressionCounter tel w0 = Inr (i, w1)"
    and "isOptimized i"
  shows "\<exists>c. impressionsCounter i = Ptr c"
  using NewImpressionManager_fields(1,3)[OF assms(1)] assms(2) by (cases impressionCounter) auto

lemma annotated_FeatureName: "FeatureName (annotated d i w x) = FeatureName x"
  by (simp add: annotated_def)

lemma processImpression_result:
  assumes "isOptimized i \<Longrightarrow> impressionsCounter i = Ptr c"
  shows "\<exists>w'. processImpression d i x forLog forListener w =
           Inr ((if \<not> isOptimized i \<or> Pt (annotated d i w x) = 0
                    \<or> Pt (annotated d i w x) < TruncateTimeFrame d (Now d (ticks w))
                 then forLog @ [annotated d i w x] else forLog,
                 if listenerEnabled i then forListener @ [annotated d i w x] else forListener), w')
         \<and> heap w' = heap w \<and> telemetry w' = telemetry w \<and> ticks w' = Suc (ticks w)
         \<and> observer w' = (if shouldAddPreviousTime i
                           then snd (TestAndSet d (observer w) (FeatureName x) x) else observer w)
         \<and> counters w' = (if isOptimized i
                           then (counters w)(c := counters w c @ [(FeatureName x, Now d (ticks w), 1)])
                           else counters w)"
  using assms
  by (cases "isOptimized i"; cases "shouldAddPreviousTime i")
     (simp_all add: processImpression_def annotated_def Inc_def Let_def case_prod_beta)

lemma processImpression_world_indep:
  "map_sum id snd (processImpression d i x forLog forListener w) = map_sum id snd (processImpression d i x [] [] w)"
  by (simp add: processImpression_def Let_def case_prod_beta split: sum.splits)


lemma passes_Cons:
  assumes "processImpression d i (heap w c) forLog forListener w = Inr (r, w')"
  shows "passes d i (c # cs) w = (annotated d i w (heap w c), Now d (ticks w)) # passes d i cs w'"
proof -
  have "map_sum id snd (processImpression d i (heap w c) [] [] w) = Inr w'"
    using processImpression_world_indep[of d i "heap w c" forLog forListener w] assms by simp
  then obtain r0 where "processImpression d i (heap w c) [] [] w = Inr (r0, w')"
    by (cases "processImpression d i (heap w c) [] [] w") auto
  then show ?thesis by simp
qed

lemma range_loop_result:
  assumes "isOptimized i \<Longrightarrow> impressionsCounter i = Ptr c"
  shows "\<exists>w'. range_loop d i cs forLog forListener w =
           Inr ((forLog @ map fst (filter (\<lambda>(x, now). \<not> isOptimized i \<or> Pt x = 0
                                              \<or> Pt x < TruncateTimeFrame d now) (passes d i cs w)),
                 forListener @ (if listenerEnabled i then map fst (passes d i cs w) else [])), w')
         \<and> heap w' = heap w \<and> telemetry w' = telemetry w \<and> ticks w' = ticks w + length cs
         \<and> counters w' = (if isOptimized i
                           then (counters w)(c := counters w c @
                                  map (\<lambda>(x, now). (FeatureName x, now, 1)) (passes d i cs w))
                           else counters w)"
proof (induction cs arbitrary: forLog forListener w)
  case Nil
  show ?case by simp
next
  case (Cons a cs)
  let ?x = "annotated d i w (heap w a)"
  let ?now = "Now d (ticks w)"
  let ?fl = "if \<not> isOptimized i \<or> Pt ?x = 0 \<or> Pt ?x < TruncateTimeFrame d ?now
             then forLog @ [?x] else forLog"
  let ?fls = "if listenerEnabled i then forListener @ [?x] else forListener"
  from processImpression_result[OF assms, of d "heap w a" forLog forListener w]
  obtain w1 where step: "processImpression d i (heap w a) forLog forListener w = Inr ((?fl, ?fls), w1)"
    and w1: "heap w1 = heap w" "telemetry w1 = telemetry w" "ticks w1 = Suc (ticks w)"
      "counters w1 = (if isOptimized i
                      then (counters w)(c := counters w c @ [(FeatureName (heap w a), ?now, 1)])
                      else counters w)"
    by blast
  have ps: "passes d i (a # cs) w = (?x, ?now) # passes d i cs w1"
    by (rule passes_Cons[OF step])
  from Cons.IH[of ?fl ?fls w1]
  obtain w' where rest: "range_loop d i cs ?fl ?fls w1 =
           Inr ((?fl @ map fst (filter (\<lambda>(x, now). \<not> isOptimized i \<or> Pt x = 0
                                              \<or> Pt x < TruncateTimeFrame d now) (passes d i cs w1)),
                 ?fls @ (if listenerEnabled i then map fst (passes d i cs w1) else [])), w')"
    and w': "heap w' = heap w1" "telemetry w' = telemetry w1" "ticks w' = ticks w1 + length cs"
      "counters w' = (if isOptimized i
                           then (counters w1)(c := counters w1 c @
                                  map (\<lambda>(x, now). (FeatureName x, now, 1)) (passes d i cs w1))
                           else counters w1)"
    by blast
  have "range_loop d i (a # cs) forLog forListener w = range_loop d i cs ?fl ?fls w1"
    using step by simp
  with rest w' w1 ps show ?case
    by (simp add: annotated_FeatureName)
qed

lemma passes_length:
  assumes "isOptimized i \<Longrightarrow> impressionsCounter i = Ptr c"
  shows "length (passes d i cs w) = length cs"
proof (induction cs arbitrary: w)
  case Nil
  show ?case by simp
next
  case (Cons a cs)
  from processImpression_result[OF assms, of d "heap w a" "[]" "[]" w]
  obtain r w1 where "processImpression d i (heap w a) [] [] w = Inr (r, w1)" by blast
  then show ?case using Cons.IH[of w1] by simp
qed


lemma annotated_Pt: "\<exists>pt. annotated d i w x = x\<lparr>Pt := pt\<rparr>"
proof (cases "shouldAddPreviousTime i")
  case True
  then show ?thesis by (auto simp: annotated_def)
next
  case False
  then have "annotated d i w x = x\<lparr>Pt := Pt x\<rparr>" by (simp add: annotated_def)
  then show ?thesis by blast
qed

lemma passes_inputs:
  assumes "isOptimized i \<Longrightarrow> impressionsCounter i = Ptr c"
  shows "list_all2 (\<lambda>p a. \<exists>pt. fst p = (heap w a)\<lparr>Pt := pt\<rparr>) (passes d i cs w) cs"
proof (induction cs arbitrary: w)
  case Nil
  show ?case by simp
next
  case (Cons a cs)
  from processImpression_result[OF assms, of d "heap w a" "[]" "[]" w]
  obtain r w1 where step: "processImpression d i (heap w a) [] [] w = Inr (r, w1)"
    and hp: "heap w1 = heap w" by blast
  show ?case using Cons.IH[of w1] step hp annotated_Pt[of d i w "heap w a"] by simp
qed

lemma passes_unannotated:
  assumes "isOptimized i \<Longrightarrow> impressionsCounter i = Ptr c"
    and "\<not> shouldAddPreviousTime i"
  shows "map fst (passes d i cs w) = map (heap w) cs"
proof (induction cs arbitrary: w)
  case Nil
  show ?case by simp
next
  case (Cons a cs)
  from processImpression_result[OF assms(1), of d "heap w a" "[]" "[]" w]
  obtain r w1 where step: "processImpression d i (heap w a) [] [] w = Inr (r, w1)"
    and hp: "heap w1 = heap w" by blast
  show ?case using Cons.IH[of w1] step hp assms(2) by (simp add: annotated_def)
qed

lemma ProcessImpressions_result:
  assumes "isOptimized i \<Longrightarrow> impressionsCounter i = Ptr c"
    and "runtimeTelemetry i = Ptr t"
  shows "\<exists>w'. ProcessImpressions d i s w =
           Inr ((map fst (filter (\<lambda>(x, now). \<not> isOptimized i \<or> Pt x = 0
                                     \<or> Pt x < TruncateTimeFrame d now) (passes d i (cells s) w)),
                 if listenerEnabled i then map fst (passes d i (cells s) w) else []), w')
         \<and> heap w' = heap w \<and> ticks w' = ticks w + len s
         \<and> telemetry w' = (telemetry w)(t := telemetry w t @
               [(ImpressionsDeduped,
                 int (len s) - int (length (filter (\<lambda>(x, now). \<not> isOptimized i \<or> Pt x = 0
                                     \<or> Pt x < TruncateTimeFrame d now) (passes d i (cells s) w))))])
         \<and> counters w' = (if isOptimized i
                           then (counters w)(c := counters w c @
                                  map (\<lambda>(x, now). (FeatureName x, now, 1)) (passes d i (cells s) w))
                           else counters w)"
proof -
  from range_loop_result[OF assms(1), of d "cells s" "[]" "[]" w]
  obtain w1 where loop: "range_loop d i (cells s) [] [] w =
           Inr ((map fst (filter (\<lambda>(x, now). \<not> isOptimized i \<or> Pt x = 0
                                     \<or> Pt x < TruncateTimeFrame d now) (passes d i (cells s) w)),
                 if listenerEnabled i then map fst (passes d i (cells s) w) else []), w1)"
    and w1: "heap w1 = heap w" "telemetry w1 = telemetry w" "ticks w1 = ticks w + length (cells s)"
      "counters w1 = (if isOptimized i
                           then (counters w)(c := counters w c @
                                  map (\<lambda>(x, now). (FeatureName x, now, 1)) (passes d i (cells s) w))
                           else counters w)"
    by auto
  have n: "length (cells s) = len s" by (simp add: cells_def)
  show ?thesis
    using loop w1 n assms(2)
    by (simp add: ProcessImpressions_def RecordImpressionsStats_def)
qed

lemma ProcessSingle_result:
  assumes "isOptimized i \<Longrightarrow> impressionsCounter i = Ptr c"
  shows "\<exists>w'. ProcessSingle d i (Ptr a) w =
           Inr ((\<not> isOptimized i \<or> Pt (annotated d i w (heap w a)) = 0
                   \<or> Pt (annotated d i w (heap w a)) < TruncateTimeFrame d (Now d (ticks w)),
                 listenerEnabled i), w')
         \<and> heap w' = (heap w)(a := annotated d i w (heap w a))
         \<and> telemetry w' = telemetry w \<and> ticks w' = Suc (ticks w)
         \<and> observer w' = (if shouldAddPreviousTime i
                           then snd (TestAndSet d (observer w) (FeatureName (heap w a)) (heap w a))
                           else observer w)
         \<and> counters w' = (if isOptimized i
                           then (counters w)(c := counters w c @
                                  [(FeatureName (heap w a), Now d (ticks w), 1)])
                           else counters w)"
  using assms
  by (cases "isOptimized i"; cases "shouldAddPreviousTime i")
     (simp_all add: ProcessSingle_def annotated_def Inc_def Let_def case_prod_beta)

lemma built_counter_ok:
  assumes "NewImpressionManager d managerConfig impressionCounter tel w0 = Inr (i, w1)"
  shows "\<exists>c. isOptimized i \<longrightarrow> impressionsCounter i = Ptr c"
  using built_counter[OF assms] by blast

lemma passes_fst_inputs:
  assumes "isOptimized i \<Longrightarrow> impressionsCounter i = Ptr c"
  shows "list_all2 (\<lambda>x a. \<exists>pt. x = (heap w a)\<lparr>Pt := pt\<rparr>) (map fst (passes d i cs w)) cs"
  using passes_inputs[OF assms, of w d cs] by (simp add: list_all2_map1)

lemma nil_counter_panics:
  assumes "isOptimized i" and "impressionsCounter i = nil"
  shows "processImpression d i x forLog forListener w = Inl NilPointerDereference"
    and "ProcessSingle d i (Ptr a) w = Inl NilPointerDereference"
  using assms
  by (simp_all add: processImpression_def ProcessSingle_def Inc_def Let_def case_prod_beta)

subsection \<open>The concrete setting, evaluated\<close>

lemmas sample_defs = sample_deps_def sample_manager_def sample_world_def lru_TestAndSet_def
  hourly_def clock_def

lemma sample_built:
  "NewImpressionManager sample_deps (sample_config add opt lis) (Ptr 0) (Ptr 0) sample_world
     = Inr (sample_manager add opt lis, sample_world)"
  by (simp add: NewImpressionManager_def sample_deps_def sample_config_def sample_manager_def
      sample_world_def lru_New_def lastSeenCacheSize_def)

lemma sample_cells: "cells \<lparr>array = 0, len = 3\<rparr> = [0, 1, 2]"
  by (simp add: cells_def upt_rec)

lemma sample_passes:
  "passes sample_deps (sample_manager True True lis) [0, 1, 2] sample_world
     = [(\<lparr>FeatureName = ''f1'', Pt = 0, Time = 100\<rparr>, 1000),
        (\<lparr>FeatureName = ''f1'', Pt = 100, Time = 150\<rparr>, 1001),
        (\<lparr>FeatureName = ''f2'', Pt = 0, Time = 200\<rparr>, 1002)]"
  by (simp add: sample_defs processImpression_def annotated_def Inc_def)

section \<open>The claims\<close>

text \<open>C1. For every impression that a manager made by the constructor processes, the
  impression goes to the log exactly when the manager is not optimized, or the \<open>Pt\<close> of
  the impression (as the pass has set it) is 0, or that \<open>Pt\<close> is less than the start of
  the time frame of the time read in the pass. This holds for \<open>ProcessSingle\<close>, for one
  round of the batch, and for the whole batch, where \<open>forLog\<close> is the list of the passes
  that satisfy the condition, in order.\<close>

theorem logged_iff_decision:
  assumes "NewImpressionManager d managerConfig impressionCounter tel w0 = Inr (i, w1)"
  shows "(case ProcessSingle d i (Ptr a) w of
            Inl e \<Rightarrow> False
          | Inr ((toLog, toListener), w') \<Rightarrow>
              toLog = (\<not> isOptimized i \<or> Pt (heap w' a) = 0
                         \<or> Pt (heap w' a) < TruncateTimeFrame d (Now d (ticks w))))
       \<and> (case processImpression d i x forLog forListener w of
            Inl e \<Rightarrow> False
          | Inr ((forLog', forListener'), w') \<Rightarrow>
              forLog' = (if \<not> isOptimized i \<or> Pt (annotated d i w x) = 0
                            \<or> Pt (annotated d i w x) < TruncateTimeFrame d (Now d (ticks w))
                         then forLog @ [annotated d i w x] else forLog))
       \<and> (tel \<noteq> nil \<longrightarrow>
           (case ProcessImpressions d i s w of
              Inl e \<Rightarrow> False
            | Inr ((forLog, forListener), w') \<Rightarrow>
                forLog = map fst (filter (\<lambda>(x, now). \<not> isOptimized i \<or> Pt x = 0
                                             \<or> Pt x < TruncateTimeFrame d now)
                                   (passes d i (cells s) w))))"
proof -
  from built_counter_ok[OF assms]
  obtain c where c: "isOptimized i \<Longrightarrow> impressionsCounter i = Ptr c" by blast
  from ProcessSingle_result[OF c, of d a w]
  have single: "case ProcessSingle d i (Ptr a) w of
            Inl e \<Rightarrow> False
          | Inr ((toLog, toListener), w') \<Rightarrow>
              toLog = (\<not> isOptimized i \<or> Pt (heap w' a) = 0
                         \<or> Pt (heap w' a) < TruncateTimeFrame d (Now d (ticks w)))"
    by auto
  from processImpression_result[OF c, of d x forLog forListener w]
  have item: "case processImpression d i x forLog forListener w of
            Inl e \<Rightarrow> False
          | Inr ((forLog', forListener'), w') \<Rightarrow>
              forLog' = (if \<not> isOptimized i \<or> Pt (annotated d i w x) = 0
                            \<or> Pt (annotated d i w x) < TruncateTimeFrame d (Now d (ticks w))
                         then forLog @ [annotated d i w x] else forLog)"
    by auto
  have batch: "case ProcessImpressions d i s w of
              Inl e \<Rightarrow> False
            | Inr ((forLog, forListener), w') \<Rightarrow>
                forLog = map fst (filter (\<lambda>(x, now). \<not> isOptimized i \<or> Pt x = 0
                                             \<or> Pt x < TruncateTimeFrame d now)
                                   (passes d i (cells s) w))" if "tel \<noteq> nil"
  proof -
    from that NewImpressionManager_fields(5)[OF assms]
    obtain t where t: "runtimeTelemetry i = Ptr t" by (cases tel) auto
    from ProcessImpressions_result[OF c t, of d s w] show ?thesis by auto
  qed
  from single item batch show ?thesis by blast
qed

text \<open>In the concrete setting, optimized and adding previous times: of the two
  impressions of f1 the first is logged and the second, seen at 100 in the same hour, is
  not; the impression of f2 is logged.\<close>

theorem logged_iff_decision_witness:
  "NewImpressionManager sample_deps (sample_config True True False) (Ptr 0) (Ptr 0) sample_world
     = Inr (sample_manager True True False, sample_world)
   \<and> (case ProcessImpressions sample_deps (sample_manager True True False)
             \<lparr>array = 0, len = 3\<rparr> sample_world of
        Inl e \<Rightarrow> None
      | Inr ((forLog, forListener), w') \<Rightarrow> Some forLog)
     = Some [\<lparr>FeatureName = ''f1'', Pt = 0, Time = 100\<rparr>,
             \<lparr>FeatureName = ''f2'', Pt = 0, Time = 200\<rparr>]"
proof -
  have h: "NewImpressionManager sample_deps (sample_config True True False) (Ptr 0) (Ptr 0)
      sample_world = Inr (sample_manager True True False, sample_world)"
    by (rule sample_built)
  from logged_iff_decision[OF h, of 0 sample_world "heap sample_world 0" "[]" "[]"
      "\<lparr>array = 0, len = 3\<rparr>"]
  show ?thesis
    using h sample_passes[of False] sample_cells
    by (auto simp: hourly_def sample_deps_def sample_manager_def split: sum.splits)
qed

text \<open>C2. Every call of \<open>ProcessImpressions\<close> on a manager made by the constructor with a
  telemetry producer records exactly one statistic: the log of that producer grows by
  the one entry (\<open>ImpressionsDeduped\<close>, \<open>len(impressions) - len(forLog)\<close>), and no other
  log of the telemetry changes. For an empty batch the value is 0.\<close>

theorem deduped_stat_once:
  assumes "NewImpressionManager d managerConfig impressionCounter (Ptr t) w0 = Inr (i, w1)"
  shows "case ProcessImpressions d i s w of
           Inl e \<Rightarrow> False
         | Inr ((forLog, forListener), w') \<Rightarrow>
             telemetry w' = (telemetry w)(t := telemetry w t @
                 [(ImpressionsDeduped, int (len s) - int (length forLog))])
             \<and> length forLog \<le> len s
             \<and> (len s = 0 \<longrightarrow> telemetry w' t = telemetry w t @ [(ImpressionsDeduped, 0)])"
proof -
  from built_counter_ok[OF assms]
  obtain c where c: "isOptimized i \<Longrightarrow> impressionsCounter i = Ptr c" by blast
  have t: "runtimeTelemetry i = Ptr t" by (rule NewImpressionManager_fields(5)[OF assms])
  let ?P = "\<lambda>(x, now). \<not> isOptimized i \<or> Pt x = 0 \<or> Pt x < TruncateTimeFrame d now"
  have n: "length (filter ?P (passes d i (cells s) w)) \<le> len s"
    using passes_length[OF c, of d "cells s" w] length_filter_le[of ?P "passes d i (cells s) w"]
    by (simp add: cells_def)
  from ProcessImpressions_result[OF c t, of d s w]
  obtain w' where r: "ProcessImpressions d i s w =
           Inr ((map fst (filter ?P (passes d i (cells s) w)),
                 if listenerEnabled i then map fst (passes d i (cells s) w) else []), w')"
    and tl: "telemetry w' = (telemetry w)(t := telemetry w t @
               [(ImpressionsDeduped, int (len s) - int (length (filter ?P (passes d i (cells s) w))))])"
    by blast
  show ?thesis using r tl n by auto
qed

text \<open>In the concrete setting: of three impressions two are logged and the statistic is
  1; for the empty batch it is 0.\<close>

theorem deduped_stat_once_witness:
  "NewImpressionManager sample_deps (sample_config True True False) (Ptr 0) (Ptr 0) sample_world
     = Inr (sample_manager True True False, sample_world)
   \<and> (case ProcessImpressions sample_deps (sample_manager True True False)
             \<lparr>array = 0, len = 3\<rparr> sample_world of
        Inl e \<Rightarrow> None
      | Inr ((forLog, forListener), w') \<Rightarrow> Some (length forLog, telemetry w' 0, telemetry w' 1))
     = Some (2, [(ImpressionsDeduped, 1)], [])
   \<and> (case ProcessImpressions sample_deps (sample_manager True True False)
             \<lparr>array = 0, len = 0\<rparr> sample_world of
        Inl e \<Rightarrow> None
      | Inr ((forLog, forListener), w') \<Rightarrow> Some (length forLog, telemetry w' 0, telemetry w' 1))
     = Some (0, [(ImpressionsDeduped, 0)], [])"
proof -
  have h: "NewImpressionManager sample_deps (sample_config True True False) (Ptr 0) (Ptr 0)
      sample_world = Inr (sample_manager True True False, sample_world)"
    by (rule sample_built)
  have l: "(case ProcessImpressions sample_deps (sample_manager True True False)
             \<lparr>array = 0, len = 3\<rparr> sample_world of
        Inl e \<Rightarrow> None
      | Inr ((forLog, forListener), w') \<Rightarrow> Some (length forLog)) = Some 2"
    by (simp add: ProcessImpressions_def sample_cells processImpression_def Inc_def
        RecordImpressionsStats_def sample_defs)
  from deduped_stat_once[OF h, where s = "\<lparr>array = 0, len = 3\<rparr>" and w = sample_world]
    deduped_stat_once[OF h, where s = "\<lparr>array = 0, len = 0\<rparr>" and w = sample_world]
  show ?thesis
    using h l by (auto simp: sample_world_def split: sum.splits)
qed

text \<open>C3. In every pass of a manager made by the constructor: when the manager is
  optimized, its counter receives exactly one call \<open>Inc\<close> with the feature name of the
  impression, the time read in the pass and the amount 1, whatever the decision on
  logging is; when it is not optimized, no counter receives anything. Over a batch the
  counter receives one such call for every pass, in order.\<close>

theorem counter_incremented_once:
  assumes "NewImpressionManager d managerConfig impressionCounter tel w0 = Inr (i, w1)"
  shows "(case ProcessSingle d i (Ptr a) w of
            Inl e \<Rightarrow> False
          | Inr (r, w') \<Rightarrow>
              (isOptimized i \<longrightarrow>
                 (\<exists>c. impressionsCounter i = Ptr c
                    \<and> counters w' = (counters w)(c := counters w c @
                          [(FeatureName (heap w a), Now d (ticks w), 1)])))
              \<and> (\<not> isOptimized i \<longrightarrow> counters w' = counters w))
       \<and> (case processImpression d i x forLog forListener w of
            Inl e \<Rightarrow> False
          | Inr (r, w') \<Rightarrow>
              (isOptimized i \<longrightarrow>
                 (\<exists>c. impressionsCounter i = Ptr c
                    \<and> counters w' = (counters w)(c := counters w c @
                          [(FeatureName x, Now d (ticks w), 1)])))
              \<and> (\<not> isOptimized i \<longrightarrow> counters w' = counters w))
       \<and> (tel \<noteq> nil \<longrightarrow>
           (case ProcessImpressions d i s w of
              Inl e \<Rightarrow> False
            | Inr (r, w') \<Rightarrow>
                (isOptimized i \<longrightarrow>
                   (\<exists>c. impressionsCounter i = Ptr c
                      \<and> counters w' = (counters w)(c := counters w c @
                            map (\<lambda>(x, now). (FeatureName x, now, 1)) (passes d i (cells s) w))))
                \<and> (\<not> isOptimized i \<longrightarrow> counters w' = counters w)
                \<and> length (passes d i (cells s) w) = len s))"
proof -
  from built_counter_ok[OF assms]
  obtain c where c: "isOptimized i \<Longrightarrow> impressionsCounter i = Ptr c" by blast
  from ProcessSingle_result[OF c, of d a w] c
  have single: "case ProcessSingle d i (Ptr a) w of
            Inl e \<Rightarrow> False
          | Inr (r, w') \<Rightarrow>
              (isOptimized i \<longrightarrow>
                 (\<exists>c. impressionsCounter i = Ptr c
                    \<and> counters w' = (counters w)(c := counters w c @
                          [(FeatureName (heap w a), Now d (ticks w), 1)])))
              \<and> (\<not> isOptimized i \<longrightarrow> counters w' = counters w)"
    by auto
  from processImpression_result[OF c, of d x forLog forListener w] c
  have item: "case processImpression d i x forLog forListener w of
            Inl e \<Rightarrow> False
          | Inr (r, w') \<Rightarrow>
              (isOptimized i \<longrightarrow>
                 (\<exists>c. impressionsCounter i = Ptr c
                    \<and> counters w' = (counters w)(c := counters w c @
                          [(FeatureName x, Now d (ticks w), 1)])))
              \<and> (\<not> isOptimized i \<longrightarrow> counters w' = counters w)"
    by auto
  have batch: "case ProcessImpressions d i s w of
              Inl e \<Rightarrow> False
            | Inr (r, w') \<Rightarrow>
                (isOptimized i \<longrightarrow>
                   (\<exists>c. impressionsCounter i = Ptr c
                      \<and> counters w' = (counters w)(c := counters w c @
                            map (\<lambda>(x, now). (FeatureName x, now, 1)) (passes d i (cells s) w))))
                \<and> (\<not> isOptimized i \<longrightarrow> counters w' = counters w)
                \<and> length (passes d i (cells s) w) = len s" if "tel \<noteq> nil"
  proof -
    from that NewImpressionManager_fields(5)[OF assms]
    obtain t where t: "runtimeTelemetry i = Ptr t" by (cases tel) auto
    have n: "length (passes d i (cells s) w) = len s"
      using passes_length[OF c, of d "cells s" w] by (simp add: cells_def)
    from ProcessImpressions_result[OF c t, of d s w] c n show ?thesis by auto
  qed
  from single item batch show ?thesis by blast
qed

text \<open>In the concrete setting: the batch logs two of its three impressions and
  increments the counter three times; the manager that is not optimized increments
  nothing.\<close>

theorem counter_incremented_once_witness:
  "NewImpressionManager sample_deps (sample_config True True False) (Ptr 0) (Ptr 0) sample_world
     = Inr (sample_manager True True False, sample_world)
   \<and> (case ProcessImpressions sample_deps (sample_manager True True False)
             \<lparr>array = 0, len = 3\<rparr> sample_world of
        Inl e \<Rightarrow> None
      | Inr ((forLog, forListener), w') \<Rightarrow> Some (length forLog, counters w' 0, counters w' 1))
     = Some (2, [(''f1'', 1000, 1), (''f1'', 1001, 1), (''f2'', 1002, 1)], [])
   \<and> NewImpressionManager sample_deps (sample_config True False False) (Ptr 0) (Ptr 0) sample_world
     = Inr (sample_manager True False False, sample_world)
   \<and> (case ProcessSingle sample_deps (sample_manager True False False) (Ptr 0) sample_world of
        Inl e \<Rightarrow> None
      | Inr (r, w') \<Rightarrow> Some (counters w' 0))
     = Some []"
proof -
  have h: "NewImpressionManager sample_deps (sample_config True True False) (Ptr 0) (Ptr 0)
      sample_world = Inr (sample_manager True True False, sample_world)"
    by (rule sample_built)
  have h': "NewImpressionManager sample_deps (sample_config True False False) (Ptr 0) (Ptr 0)
      sample_world = Inr (sample_manager True False False, sample_world)"
    by (rule sample_built)
  have l: "(case ProcessImpressions sample_deps (sample_manager True True False)
             \<lparr>array = 0, len = 3\<rparr> sample_world of
        Inl e \<Rightarrow> None
      | Inr ((forLog, forListener), w') \<Rightarrow> Some (length forLog)) = Some 2"
    by (simp add: ProcessImpressions_def sample_cells processImpression_def Inc_def
        RecordImpressionsStats_def sample_defs)
  from counter_incremented_once[OF h, where s = "\<lparr>array = 0, len = 3\<rparr>" and w = sample_world]
    counter_incremented_once[OF h', where a = 0 and w = sample_world]
  show ?thesis
    using h h' l sample_passes[of False] sample_cells
    by (auto simp: sample_world_def sample_manager_def split: sum.splits)
qed

text \<open>C4. In a pass of a manager made by the constructor, \<open>Pt\<close> is assigned only when the
  manager adds previous times, and then once: the impression gets the value that the
  one call of \<open>TestAndSet\<close> of the pass returns, whatever \<open>Pt\<close> it came with, and
  nothing else of it changes. \<open>ProcessSingle\<close> writes this into the impression of the
  caller; the batch step writes it into its copy, which is the only new element the two
  lists can get. Without previous times neither the impression nor the observer
  changes.\<close>

theorem Pt_written_from_observer:
  assumes "NewImpressionManager d managerConfig impressionCounter tel w0 = Inr (i, w1)"
  shows "(case ProcessSingle d i (Ptr a) w of
            Inl e \<Rightarrow> False
          | Inr (r, w') \<Rightarrow>
              (if ShouldAddPreviousTime d managerConfig
               then heap w' = (heap w)(a := (heap w a)
                        \<lparr>Pt := fst (TestAndSet d (observer w) (FeatureName (heap w a)) (heap w a))\<rparr>)
                  \<and> observer w' = snd (TestAndSet d (observer w) (FeatureName (heap w a)) (heap w a))
               else heap w' = heap w \<and> observer w' = observer w))
       \<and> (case processImpression d i x forLog0 forListener0 w of
            Inl e \<Rightarrow> False
          | Inr ((forLog, forListener), w') \<Rightarrow>
              heap w' = heap w
              \<and> (if ShouldAddPreviousTime d managerConfig
                 then forLog \<in> {forLog0, forLog0 @
                          [x\<lparr>Pt := fst (TestAndSet d (observer w) (FeatureName x) x)\<rparr>]}
                    \<and> forListener \<in> {forListener0, forListener0 @
                          [x\<lparr>Pt := fst (TestAndSet d (observer w) (FeatureName x) x)\<rparr>]}
                    \<and> observer w' = snd (TestAndSet d (observer w) (FeatureName x) x)
                 else forLog \<in> {forLog0, forLog0 @ [x]}
                    \<and> forListener \<in> {forListener0, forListener0 @ [x]}
                    \<and> observer w' = observer w))"
proof -
  from built_counter_ok[OF assms]
  obtain c where c: "isOptimized i \<Longrightarrow> impressionsCounter i = Ptr c" by blast
  have s: "shouldAddPreviousTime i = ShouldAddPreviousTime d managerConfig"
    by (rule NewImpressionManager_fields(2)[OF assms])
  from ProcessSingle_result[OF c, of d a w] s
  have single: "case ProcessSingle d i (Ptr a) w of
            Inl e \<Rightarrow> False
          | Inr (r, w') \<Rightarrow>
              (if ShouldAddPreviousTime d managerConfig
               then heap w' = (heap w)(a := (heap w a)
                        \<lparr>Pt := fst (TestAndSet d (observer w) (FeatureName (heap w a)) (heap w a))\<rparr>)
                  \<and> observer w' = snd (TestAndSet d (observer w) (FeatureName (heap w a)) (heap w a))
               else heap w' = heap w \<and> observer w' = observer w)"
    by (auto simp: annotated_def)
  from processImpression_result[OF c, of d x forLog0 forListener0 w] s
  have item: "case processImpression d i x forLog0 forListener0 w of
            Inl e \<Rightarrow> False
          | Inr ((forLog, forListener), w') \<Rightarrow>
              heap w' = heap w
              \<and> (if ShouldAddPreviousTime d managerConfig
                 then forLog \<in> {forLog0, forLog0 @
                          [x\<lparr>Pt := fst (TestAndSet d (observer w) (FeatureName x) x)\<rparr>]}
                    \<and> forListener \<in> {forListener0, forListener0 @
                          [x\<lparr>Pt := fst (TestAndSet d (observer w) (FeatureName x) x)\<rparr>]}
                    \<and> observer w' = snd (TestAndSet d (observer w) (FeatureName x) x)
                 else forLog \<in> {forLog0, forLog0 @ [x]}
                    \<and> forListener \<in> {forListener0, forListener0 @ [x]}
                    \<and> observer w' = observer w)"
    by (auto simp: annotated_def)
  from single item show ?thesis by blast
qed

text \<open>In the concrete setting: the impression of f2 comes with \<open>Pt\<close> 500, the observer has
  not seen it, and the pass sets its \<open>Pt\<close> to 0 and stores its time; the impression in
  cell 0 is not touched.\<close>

theorem Pt_written_from_observer_witness:
  "NewImpressionManager sample_deps (sample_config True True False) (Ptr 0) (Ptr 0) sample_world
     = Inr (sample_manager True True False, sample_world)
   \<and> (case ProcessSingle sample_deps (sample_manager True True False) (Ptr 2) sample_world of
        Inl e \<Rightarrow> None
      | Inr (r, w') \<Rightarrow> Some (heap w' 2, heap w' 0, entries (observer w')))
     = Some (\<lparr>FeatureName = ''f2'', Pt = 0, Time = 200\<rparr>,
             \<lparr>FeatureName = ''f1'', Pt = 0, Time = 100\<rparr>, [(''f2'', 200)])"
proof -
  have h: "NewImpressionManager sample_deps (sample_config True True False) (Ptr 0) (Ptr 0)
      sample_world = Inr (sample_manager True True False, sample_world)"
    by (rule sample_built)
  have a: "ShouldAddPreviousTime sample_deps (sample_config True True False)"
    by (simp add: sample_deps_def sample_config_def)
  from Pt_written_from_observer[OF h, where a = 2 and w = sample_world
      and x = "heap sample_world 2" and ?forLog0.0 = "[]" and ?forListener0.0 = "[]"]
  show ?thesis
    using h a
    by (auto simp: sample_world_def sample_deps_def lru_TestAndSet_def split: sum.splits)
qed

text \<open>The assignment can lower \<open>Pt\<close> and can reset it to 0: the manager that adds previous
  times sets the \<open>Pt\<close> 500 of the impression of f2 to 0.\<close>

theorem Pt_reset_counterexample:
  "NewImpressionManager sample_deps (sample_config True False False) (Ptr 0) (Ptr 0) sample_world
     = Inr (sample_manager True False False, sample_world)
   \<and> Pt (heap sample_world 2) = 500
   \<and> (case ProcessSingle sample_deps (sample_manager True False False) (Ptr 2) sample_world of
        Inl e \<Rightarrow> None
      | Inr (r, w') \<Rightarrow> Some (Pt (heap w' 2)))
     = Some 0"
proof -
  have "(case ProcessSingle sample_deps (sample_manager True False False) (Ptr 2) sample_world of
        Inl e \<Rightarrow> None
      | Inr (r, w') \<Rightarrow> Some (Pt (heap w' 2)))
     = Some 0"
    by (simp add: ProcessSingle_def sample_defs)
  moreover have "Pt (heap sample_world 2) = 500"
    by (simp add: sample_world_def)
  ultimately show ?thesis
    using sample_built[of True False False] by simp
qed

text \<open>C5. \<open>ProcessSingle\<close> on the impression at an address decides as one round of the batch
  loop on a copy of that impression does, for every manager and every world: both fail
  together, and otherwise the round appends the impression as \<open>ProcessSingle\<close> leaves it
  exactly where \<open>toLog\<close> and \<open>toListener\<close> say, and leaves the collaborators in the same
  state; only the impression of the caller is written by \<open>ProcessSingle\<close> and not by the
  round. A batch of that one cell returns the same and records the one statistic;
  \<open>ProcessSingle\<close> records none.\<close>

theorem single_is_batch_step:
  assumes "runtimeTelemetry i = Ptr t"
  shows "processImpression d i (heap w a) forLog forListener w =
           (case ProcessSingle d i (Ptr a) w of
              Inl e \<Rightarrow> Inl e
            | Inr ((toLog, toListener), w') \<Rightarrow>
                Inr ((if toLog then forLog @ [heap w' a] else forLog,
                      if toListener then forListener @ [heap w' a] else forListener),
                     w'\<lparr>heap := heap w\<rparr>))
       \<and> ProcessImpressions d i \<lparr>array = a, len = 1\<rparr> w =
           (case ProcessSingle d i (Ptr a) w of
              Inl e \<Rightarrow> Inl e
            | Inr ((toLog, toListener), w') \<Rightarrow>
                Inr ((if toLog then [heap w' a] else [],
                      if toListener then [heap w' a] else []),
                     w'\<lparr>heap := heap w,
                        telemetry := (telemetry w)(t := telemetry w t @
                           [(ImpressionsDeduped, if toLog then 0 else 1)])\<rparr>))
       \<and> (case ProcessSingle d i (Ptr a) w of
            Inl e \<Rightarrow> True
          | Inr (r, w') \<Rightarrow> telemetry w' = telemetry w)"
proof -
  have step: "processImpression d i (heap w a) fl fls w =
           (case ProcessSingle d i (Ptr a) w of
              Inl e \<Rightarrow> Inl e
            | Inr ((toLog, toListener), w') \<Rightarrow>
                Inr ((if toLog then fl @ [heap w' a] else fl,
                      if toListener then fls @ [heap w' a] else fls),
                     w'\<lparr>heap := heap w\<rparr>))" for fl fls
    by (cases "isOptimized i"; cases "shouldAddPreviousTime i"; cases "impressionsCounter i")
       (simp_all add: processImpression_def ProcessSingle_def Inc_def Let_def case_prod_beta)
  have tel: "case ProcessSingle d i (Ptr a) w of
            Inl e \<Rightarrow> True
          | Inr (r, w') \<Rightarrow> telemetry w' = telemetry w"
    by (cases "isOptimized i"; cases "shouldAddPreviousTime i"; cases "impressionsCounter i")
       (simp_all add: ProcessSingle_def Inc_def Let_def case_prod_beta)
  have batch: "ProcessImpressions d i \<lparr>array = a, len = 1\<rparr> w =
           (case ProcessSingle d i (Ptr a) w of
              Inl e \<Rightarrow> Inl e
            | Inr ((toLog, toListener), w') \<Rightarrow>
                Inr ((if toLog then [heap w' a] else [],
                      if toListener then [heap w' a] else []),
                     w'\<lparr>heap := heap w,
                        telemetry := (telemetry w)(t := telemetry w t @
                           [(ImpressionsDeduped, if toLog then 0 else 1)])\<rparr>))"
    using tel assms
    by (auto simp: ProcessImpressions_def cells_def step[of "[]" "[]"] RecordImpressionsStats_def
        split: sum.splits)
  from step[of forLog forListener] batch tel show ?thesis by blast
qed

text \<open>In the concrete setting, with f1 already seen at 100: \<open>ProcessSingle\<close> on the second
  impression of f1 answers not to log and to listen, sets its \<open>Pt\<close> to 100 and records
  nothing; the batch of that one cell returns the same impression for the listener
  only, leaves the cell as it was and records one deduplicated impression.\<close>

theorem single_is_batch_step_witness:
  "runtimeTelemetry (sample_manager True True True) = Ptr 0
   \<and> (case ProcessSingle sample_deps (sample_manager True True True) (Ptr 1)
             (sample_world\<lparr>observer := \<lparr>capacity = 500000, entries = [(''f1'', 100)]\<rparr>\<rparr>) of
        Inl e \<Rightarrow> None
      | Inr (r, w') \<Rightarrow> Some (r, heap w' 1, telemetry w' 0))
     = Some ((False, True), \<lparr>FeatureName = ''f1'', Pt = 100, Time = 150\<rparr>, [])
   \<and> (case ProcessImpressions sample_deps (sample_manager True True True) \<lparr>array = 1, len = 1\<rparr>
             (sample_world\<lparr>observer := \<lparr>capacity = 500000, entries = [(''f1'', 100)]\<rparr>\<rparr>) of
        Inl e \<Rightarrow> None
      | Inr (r, w') \<Rightarrow> Some (r, heap w' 1, telemetry w' 0))
     = Some (([], [\<lparr>FeatureName = ''f1'', Pt = 100, Time = 150\<rparr>]),
             \<lparr>FeatureName = ''f1'', Pt = 0, Time = 150\<rparr>, [(ImpressionsDeduped, 1)])"
proof -
  let ?w = "sample_world\<lparr>observer := \<lparr>capacity = 500000, entries = [(''f1'', 100)]\<rparr>\<rparr>"
  have t: "runtimeTelemetry (sample_manager True True True) = Ptr 0"
    by (simp add: sample_manager_def)
  have q: "(case ProcessSingle sample_deps (sample_manager True True True) (Ptr 1) ?w of
        Inl e \<Rightarrow> None
      | Inr (r, w') \<Rightarrow> Some (r, heap w' 1, telemetry w' 0))
     = Some ((False, True), \<lparr>FeatureName = ''f1'', Pt = 100, Time = 150\<rparr>, [])"
    by (simp add: ProcessSingle_def Inc_def sample_defs)
  from single_is_batch_step[OF t, where d = sample_deps and a = 1 and w = ?w
      and forLog = "[]" and forListener = "[]"]
  show ?thesis
    using t q by (auto simp: sample_world_def split: sum.splits)
qed

text \<open>C6. When the configuration does not ask for previous times, a manager made by the
  constructor never writes an impression: \<open>ProcessSingle\<close> leaves the heap as it was, and
  both results of a batch are subsequences of the impressions as the cells hold them,
  \<open>Pt\<close> included.\<close>

theorem Pt_kept_without_annotation:
  assumes "NewImpressionManager d managerConfig impressionCounter tel w0 = Inr (i, w1)"
    and "\<not> ShouldAddPreviousTime d managerConfig"
  shows "(case ProcessSingle d i (Ptr a) w of
            Inl e \<Rightarrow> False
          | Inr (r, w') \<Rightarrow> heap w' = heap w)
       \<and> (tel \<noteq> nil \<longrightarrow>
           (case ProcessImpressions d i s w of
              Inl e \<Rightarrow> False
            | Inr ((forLog, forListener), w') \<Rightarrow>
                subseq forLog (map (heap w) (cells s))
                \<and> subseq forListener (map (heap w) (cells s))
                \<and> heap w' = heap w))"
proof -
  from built_counter_ok[OF assms(1)]
  obtain c where c: "isOptimized i \<Longrightarrow> impressionsCounter i = Ptr c" by blast
  have na: "\<not> shouldAddPreviousTime i"
    using NewImpressionManager_fields(2)[OF assms(1)] assms(2) by simp
  then have an: "annotated d i w x = x" for w x
    by (simp add: annotated_def)
  from ProcessSingle_result[OF c, of d a w]
  have single: "case ProcessSingle d i (Ptr a) w of
            Inl e \<Rightarrow> False
          | Inr (r, w') \<Rightarrow> heap w' = heap w"
    by (auto simp: an)
  have batch: "case ProcessImpressions d i s w of
              Inl e \<Rightarrow> False
            | Inr ((forLog, forListener), w') \<Rightarrow>
                subseq forLog (map (heap w) (cells s))
                \<and> subseq forListener (map (heap w) (cells s))
                \<and> heap w' = heap w" if "tel \<noteq> nil"
  proof -
    from that NewImpressionManager_fields(5)[OF assms(1)]
    obtain t where t: "runtimeTelemetry i = Ptr t" by (cases tel) auto
    let ?P = "\<lambda>(x, now). \<not> isOptimized i \<or> Pt x = 0 \<or> Pt x < TruncateTimeFrame d now"
    let ?ps = "passes d i (cells s) w"
    have ps: "map fst ?ps = map (heap w) (cells s)"
      by (rule passes_unannotated[OF c na])
    have "subseq (map fst (filter ?P ?ps)) (map fst ?ps)"
      by (rule subseq_map) simp
    then have s1: "subseq (map fst (filter ?P ?ps)) (map (heap w) (cells s))"
      by (simp only: ps)
    from ProcessImpressions_result[OF c t, of d s w] s1 ps show ?thesis by auto
  qed
  from single batch show ?thesis by blast
qed

text \<open>In the concrete setting, optimized and without previous times: the impression of f2
  keeps its \<open>Pt\<close> 500, in place and in the list for the listener.\<close>

theorem Pt_kept_without_annotation_witness:
  "NewImpressionManager sample_deps (sample_config False True True) (Ptr 0) (Ptr 0) sample_world
     = Inr (sample_manager False True True, sample_world)
   \<and> \<not> ShouldAddPreviousTime sample_deps (sample_config False True True)
   \<and> (case ProcessSingle sample_deps (sample_manager False True True) (Ptr 2) sample_world of
        Inl e \<Rightarrow> None
      | Inr (r, w') \<Rightarrow> Some (r, heap w' 2))
     = Some ((False, True), \<lparr>FeatureName = ''f2'', Pt = 500, Time = 200\<rparr>)
   \<and> (case ProcessImpressions sample_deps (sample_manager False True True)
             \<lparr>array = 0, len = 3\<rparr> sample_world of
        Inl e \<Rightarrow> None
      | Inr (r, w') \<Rightarrow> Some r)
     = Some ([\<lparr>FeatureName = ''f1'', Pt = 0, Time = 100\<rparr>,
              \<lparr>FeatureName = ''f1'', Pt = 0, Time = 150\<rparr>],
             [\<lparr>FeatureName = ''f1'', Pt = 0, Time = 100\<rparr>,
              \<lparr>FeatureName = ''f1'', Pt = 0, Time = 150\<rparr>,
              \<lparr>FeatureName = ''f2'', Pt = 500, Time = 200\<rparr>])"
proof -
  have h: "NewImpressionManager sample_deps (sample_config False True True) (Ptr 0) (Ptr 0)
      sample_world = Inr (sample_manager False True True, sample_world)"
    by (rule sample_built)
  have n: "\<not> ShouldAddPreviousTime sample_deps (sample_config False True True)"
    by (simp add: sample_deps_def sample_config_def)
  have r: "(case ProcessImpressions sample_deps (sample_manager False True True)
             \<lparr>array = 0, len = 3\<rparr> sample_world of
        Inl e \<Rightarrow> None
      | Inr (r, w') \<Rightarrow> Some r)
     = Some ([\<lparr>FeatureName = ''f1'', Pt = 0, Time = 100\<rparr>,
              \<lparr>FeatureName = ''f1'', Pt = 0, Time = 150\<rparr>],
             [\<lparr>FeatureName = ''f1'', Pt = 0, Time = 100\<rparr>,
              \<lparr>FeatureName = ''f1'', Pt = 0, Time = 150\<rparr>,
              \<lparr>FeatureName = ''f2'', Pt = 500, Time = 200\<rparr>])"
    by (simp add: ProcessImpressions_def sample_cells processImpression_def Inc_def
        RecordImpressionsStats_def sample_defs)
  have q: "(case ProcessSingle sample_deps (sample_manager False True True) (Ptr 2) sample_world of
        Inl e \<Rightarrow> None
      | Inr ((toLog, toListener), w') \<Rightarrow> Some (toLog, toListener))
     = Some (False, True)"
    by (simp add: ProcessSingle_def Inc_def sample_defs)
  from Pt_kept_without_annotation[OF h n, where a = 2 and w = sample_world]
  show ?thesis
    using h n r q by (auto simp: sample_world_def split: sum.splits)
qed

text \<open>C7. The decision for the listener is the flag \<open>ListenerEnabled\<close> the manager was
  made with, and nothing else: \<open>ProcessSingle\<close> returns it as \<open>toListener\<close>; a batch
  returns in \<open>forListener\<close> every impression of the batch, in order and as its pass has
  annotated it, when the flag is set, and the empty list when it is not.\<close>

theorem listener_gets_all_or_nothing:
  assumes "NewImpressionManager d managerConfig impressionCounter tel w0 = Inr (i, w1)"
  shows "(case ProcessSingle d i (Ptr a) w of
            Inl e \<Rightarrow> False
          | Inr ((toLog, toListener), w') \<Rightarrow> toListener = ListenerEnabled managerConfig)
       \<and> (tel \<noteq> nil \<longrightarrow>
           (case ProcessImpressions d i s w of
              Inl e \<Rightarrow> False
            | Inr ((forLog, forListener), w') \<Rightarrow>
                (if ListenerEnabled managerConfig
                 then forListener = map fst (passes d i (cells s) w)
                    \<and> list_all2 (\<lambda>x a. \<exists>pt. x = (heap w a)\<lparr>Pt := pt\<rparr>) forListener (cells s)
                 else forListener = [])))"
proof -
  from built_counter_ok[OF assms]
  obtain c where c: "isOptimized i \<Longrightarrow> impressionsCounter i = Ptr c" by blast
  have l: "listenerEnabled i = ListenerEnabled managerConfig"
    by (rule NewImpressionManager_fields(4)[OF assms])
  from ProcessSingle_result[OF c, of d a w] l
  have single: "case ProcessSingle d i (Ptr a) w of
            Inl e \<Rightarrow> False
          | Inr ((toLog, toListener), w') \<Rightarrow> toListener = ListenerEnabled managerConfig"
    by auto
  have batch: "case ProcessImpressions d i s w of
              Inl e \<Rightarrow> False
            | Inr ((forLog, forListener), w') \<Rightarrow>
                (if ListenerEnabled managerConfig
                 then forListener = map fst (passes d i (cells s) w)
                    \<and> list_all2 (\<lambda>x a. \<exists>pt. x = (heap w a)\<lparr>Pt := pt\<rparr>) forListener (cells s)
                 else forListener = [])" if "tel \<noteq> nil"
  proof -
    from that NewImpressionManager_fields(5)[OF assms]
    obtain t where t: "runtimeTelemetry i = Ptr t" by (cases tel) auto
    from ProcessImpressions_result[OF c t, of d s w] l passes_fst_inputs[OF c, of w d "cells s"]
    show ?thesis by auto
  qed
  from single batch show ?thesis by blast
qed

text \<open>In the concrete setting: with the listener the three impressions all reach it, the
  suppressed one included; without it none does.\<close>

theorem listener_gets_all_or_nothing_witness:
  "NewImpressionManager sample_deps (sample_config True True True) (Ptr 0) (Ptr 0) sample_world
     = Inr (sample_manager True True True, sample_world)
   \<and> (case ProcessImpressions sample_deps (sample_manager True True True)
             \<lparr>array = 0, len = 3\<rparr> sample_world of
        Inl e \<Rightarrow> None
      | Inr ((forLog, forListener), w') \<Rightarrow> Some forListener)
     = Some [\<lparr>FeatureName = ''f1'', Pt = 0, Time = 100\<rparr>,
             \<lparr>FeatureName = ''f1'', Pt = 100, Time = 150\<rparr>,
             \<lparr>FeatureName = ''f2'', Pt = 0, Time = 200\<rparr>]
   \<and> NewImpressionManager sample_deps (sample_config True True False) (Ptr 0) (Ptr 0) sample_world
     = Inr (sample_manager True True False, sample_world)
   \<and> (case ProcessImpressions sample_deps (sample_manager True True False)
             \<lparr>array = 0, len = 3\<rparr> sample_world of
        Inl e \<Rightarrow> None
      | Inr ((forLog, forListener), w') \<Rightarrow> Some forListener)
     = Some []"
proof -
  have h: "NewImpressionManager sample_deps (sample_config True True True) (Ptr 0) (Ptr 0)
      sample_world = Inr (sample_manager True True True, sample_world)"
    by (rule sample_built)
  have h': "NewImpressionManager sample_deps (sample_config True True False) (Ptr 0) (Ptr 0)
      sample_world = Inr (sample_manager True True False, sample_world)"
    by (rule sample_built)
  from listener_gets_all_or_nothing[OF h, where s = "\<lparr>array = 0, len = 3\<rparr>" and w = sample_world]
    listener_gets_all_or_nothing[OF h', where s = "\<lparr>array = 0, len = 3\<rparr>" and w = sample_world]
  show ?thesis
    using h h' sample_passes[of True] sample_passes[of False] sample_cells
    by (auto simp: sample_config_def split: sum.splits)
qed

text \<open>C8. Both results of \<open>ProcessImpressions\<close> are subsequences of the input as the
  passes have annotated it, which is the input cell by cell up to \<open>Pt\<close>; so each is at
  most as long as the input and keeps its order. The loop only appends: whatever the
  two lists hold when the loop starts is a prefix of what they hold when it ends.\<close>

theorem outputs_are_subsequences:
  assumes "NewImpressionManager d managerConfig impressionCounter (Ptr t) w0 = Inr (i, w1)"
  shows "(case ProcessImpressions d i s w of
            Inl e \<Rightarrow> False
          | Inr ((forLog, forListener), w') \<Rightarrow>
              length forLog \<le> len s \<and> length forListener \<le> len s
              \<and> subseq forLog (map fst (passes d i (cells s) w))
              \<and> subseq forListener (map fst (passes d i (cells s) w))
              \<and> list_all2 (\<lambda>x a. \<exists>pt. x = (heap w a)\<lparr>Pt := pt\<rparr>)
                   (map fst (passes d i (cells s) w)) (cells s))
       \<and> (case range_loop d i cs forLog0 forListener0 w of
            Inl e \<Rightarrow> False
          | Inr ((forLog, forListener), w') \<Rightarrow>
              prefix forLog0 forLog \<and> prefix forListener0 forListener)"
proof -
  from built_counter_ok[OF assms]
  obtain c where c: "isOptimized i \<Longrightarrow> impressionsCounter i = Ptr c" by blast
  have t: "runtimeTelemetry i = Ptr t" by (rule NewImpressionManager_fields(5)[OF assms])
  let ?P = "\<lambda>(x, now). \<not> isOptimized i \<or> Pt x = 0 \<or> Pt x < TruncateTimeFrame d now"
  let ?ps = "passes d i (cells s) w"
  have n: "length ?ps = len s"
    using passes_length[OF c, of d "cells s" w] by (simp add: cells_def)
  have n1: "length (filter ?P ?ps) \<le> len s"
    using n length_filter_le[of ?P ?ps] by simp
  have s1: "subseq (map fst (filter ?P ?ps)) (map fst ?ps)"
    by (rule subseq_map) simp
  from ProcessImpressions_result[OF c t, of d s w]
  obtain w' where r: "ProcessImpressions d i s w =
           Inr ((map fst (filter ?P ?ps), if listenerEnabled i then map fst ?ps else []), w')"
    by blast
  have batch: "case ProcessImpressions d i s w of
            Inl e \<Rightarrow> False
          | Inr ((forLog, forListener), w') \<Rightarrow>
              length forLog \<le> len s \<and> length forListener \<le> len s
              \<and> subseq forLog (map fst ?ps) \<and> subseq forListener (map fst ?ps)
              \<and> list_all2 (\<lambda>x a. \<exists>pt. x = (heap w a)\<lparr>Pt := pt\<rparr>) (map fst ?ps) (cells s)"
    using r n n1 s1 passes_fst_inputs[OF c, of w d "cells s"] by simp
  from range_loop_result[OF c, of d cs forLog0 forListener0 w]
  have loop: "case range_loop d i cs forLog0 forListener0 w of
            Inl e \<Rightarrow> False
          | Inr ((forLog, forListener), w') \<Rightarrow>
              prefix forLog0 forLog \<and> prefix forListener0 forListener"
    by auto
  from batch loop show ?thesis by blast
qed

text \<open>In the concrete setting: the log gets the first and the third impression, the
  listener all three.\<close>

theorem outputs_are_subsequences_witness:
  "NewImpressionManager sample_deps (sample_config True True True) (Ptr 0) (Ptr 0) sample_world
     = Inr (sample_manager True True True, sample_world)
   \<and> (case ProcessImpressions sample_deps (sample_manager True True True)
             \<lparr>array = 0, len = 3\<rparr> sample_world of
        Inl e \<Rightarrow> None
      | Inr (r, w') \<Rightarrow> Some r)
     = Some ([\<lparr>FeatureName = ''f1'', Pt = 0, Time = 100\<rparr>,
              \<lparr>FeatureName = ''f2'', Pt = 0, Time = 200\<rparr>],
             [\<lparr>FeatureName = ''f1'', Pt = 0, Time = 100\<rparr>,
              \<lparr>FeatureName = ''f1'', Pt = 100, Time = 150\<rparr>,
              \<lparr>FeatureName = ''f2'', Pt = 0, Time = 200\<rparr>])
   \<and> subseq [\<lparr>FeatureName = ''f1'', Pt = 0, Time = 100\<rparr>,
             \<lparr>FeatureName = ''f2'', Pt = 0, Time = 200\<rparr>]
        (map fst (passes sample_deps (sample_manager True True True) [0, 1, 2] sample_world))"
proof -
  have h: "NewImpressionManager sample_deps (sample_config True True True) (Ptr 0) (Ptr 0)
      sample_world = Inr (sample_manager True True True, sample_world)"
    by (rule sample_built)
  have r: "(case ProcessImpressions sample_deps (sample_manager True True True)
             \<lparr>array = 0, len = 3\<rparr> sample_world of
        Inl e \<Rightarrow> None
      | Inr (r, w') \<Rightarrow> Some r)
     = Some ([\<lparr>FeatureName = ''f1'', Pt = 0, Time = 100\<rparr>,
              \<lparr>FeatureName = ''f2'', Pt = 0, Time = 200\<rparr>],
             [\<lparr>FeatureName = ''f1'', Pt = 0, Time = 100\<rparr>,
              \<lparr>FeatureName = ''f1'', Pt = 100, Time = 150\<rparr>,
              \<lparr>FeatureName = ''f2'', Pt = 0, Time = 200\<rparr>])"
    by (simp add: ProcessImpressions_def sample_cells processImpression_def Inc_def
        RecordImpressionsStats_def sample_defs)
  from r obtain w' where e: "ProcessImpressions sample_deps (sample_manager True True True)
             \<lparr>array = 0, len = 3\<rparr> sample_world
     = Inr (([\<lparr>FeatureName = ''f1'', Pt = 0, Time = 100\<rparr>,
              \<lparr>FeatureName = ''f2'', Pt = 0, Time = 200\<rparr>],
             [\<lparr>FeatureName = ''f1'', Pt = 0, Time = 100\<rparr>,
              \<lparr>FeatureName = ''f1'', Pt = 100, Time = 150\<rparr>,
              \<lparr>FeatureName = ''f2'', Pt = 0, Time = 200\<rparr>]), w')"
    by (auto split: sum.splits)
  from outputs_are_subsequences[OF h, where s = "\<lparr>array = 0, len = 3\<rparr>" and w = sample_world
      and cs = "[]" and ?forLog0.0 = "[]" and ?forListener0.0 = "[]"] e
  have "subseq [\<lparr>FeatureName = ''f1'', Pt = 0, Time = 100\<rparr>,
             \<lparr>FeatureName = ''f2'', Pt = 0, Time = 200\<rparr>]
        (map fst (passes sample_deps (sample_manager True True True)
           (cells \<lparr>array = 0, len = 3\<rparr>) sample_world))"
    by simp
  then show ?thesis
    using h r by (simp only: sample_cells simp_thms)
qed

text \<open>C9. The manager the constructor makes is optimized only if it was given a counter
  that is not nil, so its field \<open>impressionsCounter\<close> is not nil whenever \<open>isOptimized\<close>
  holds, and neither a round of the batch loop, nor the loop, nor \<open>ProcessSingle\<close> on an
  impression fails.\<close>

theorem optimized_only_with_counter:
  assumes "NewImpressionManager d managerConfig impressionCounter tel w0 = Inr (i, w1)"
  shows "isOptimized i = (impressionCounter \<noteq> nil \<and> ShouldBeOptimized d managerConfig)
       \<and> (isOptimized i \<longrightarrow> impressionsCounter i \<noteq> nil)
       \<and> (\<exists>r. processImpression d i x forLog forListener w = Inr r)
       \<and> (\<exists>r. range_loop d i cs forLog forListener w = Inr r)
       \<and> (\<exists>r. ProcessSingle d i (Ptr a) w = Inr r)"
proof -
  from built_counter_ok[OF assms]
  obtain c where c: "isOptimized i \<Longrightarrow> impressionsCounter i = Ptr c" by blast
  have o: "isOptimized i = (impressionCounter \<noteq> nil \<and> ShouldBeOptimized d managerConfig)"
    by (rule NewImpressionManager_fields(3)[OF assms])
  have p: "isOptimized i \<longrightarrow> impressionsCounter i \<noteq> nil"
    using c by auto
  from processImpression_result[OF c, of d x forLog forListener w]
  have item: "\<exists>r. processImpression d i x forLog forListener w = Inr r" by blast
  from range_loop_result[OF c, of d cs forLog forListener w]
  have loop: "\<exists>r. range_loop d i cs forLog forListener w = Inr r" by blast
  from ProcessSingle_result[OF c, of d a w]
  have single: "\<exists>r. ProcessSingle d i (Ptr a) w = Inr r" by blast
  from o p item loop single show ?thesis by blast
qed

text \<open>In the concrete setting: from a configuration that asks for optimization and a nil
  counter the constructor makes a manager that is not optimized, and \<open>ProcessSingle\<close>
  returns.\<close>

theorem optimized_only_with_counter_witness:
  "NewImpressionManager sample_deps (sample_config True True False) nil (Ptr 0) sample_world
     = Inr (\<lparr>impressionsCounter = nil, shouldAddPreviousTime = True, isOptimized = False,
             listenerEnabled = False, runtimeTelemetry = Ptr 0\<rparr>, sample_world)
   \<and> (case ProcessSingle sample_deps
             \<lparr>impressionsCounter = nil, shouldAddPreviousTime = True, isOptimized = False,
              listenerEnabled = False, runtimeTelemetry = Ptr 0\<rparr> (Ptr 1) sample_world of
        Inl e \<Rightarrow> None
      | Inr (r, w') \<Rightarrow> Some r)
     = Some (True, False)"
proof -
  have h: "NewImpressionManager sample_deps (sample_config True True False) nil (Ptr 0) sample_world
     = Inr (\<lparr>impressionsCounter = nil, shouldAddPreviousTime = True, isOptimized = False,
             listenerEnabled = False, runtimeTelemetry = Ptr 0\<rparr>, sample_world)"
    by (simp add: NewImpressionManager_def sample_deps_def sample_config_def
      sample_world_def lru_New_def lastSeenCacheSize_def)
  have q: "(case ProcessSingle sample_deps
             \<lparr>impressionsCounter = nil, shouldAddPreviousTime = True, isOptimized = False,
              listenerEnabled = False, runtimeTelemetry = Ptr 0\<rparr> (Ptr 1) sample_world of
        Inl e \<Rightarrow> None
      | Inr (r, w') \<Rightarrow> Some r)
     = Some (True, False)"
    by (simp add: ProcessSingle_def sample_deps_def sample_world_def lru_TestAndSet_def)
  from optimized_only_with_counter[OF h, where a = 1 and w = sample_world]
  show ?thesis
    using h q by simp
qed

text \<open>C10. \<open>ProcessImpressions\<close> leaves every impression of the heap as it was, the cells of
  its input included: each round works on a copy, and the annotated copy is all that a
  round can append to the results. \<open>ProcessSingle\<close> writes the annotated impression into
  the cell it was given.\<close>

theorem batch_works_on_copies:
  assumes "NewImpressionManager d managerConfig impressionCounter (Ptr t) w0 = Inr (i, w1)"
  shows "(case ProcessImpressions d i s w of
            Inl e \<Rightarrow> False
          | Inr ((forLog, forListener), w') \<Rightarrow>
              heap w' = heap w
              \<and> subseq forLog (map fst (passes d i (cells s) w))
              \<and> subseq forListener (map fst (passes d i (cells s) w)))
       \<and> (case processImpression d i (heap w a) forLog0 forListener0 w of
            Inl e \<Rightarrow> False
          | Inr ((forLog, forListener), w') \<Rightarrow>
              heap w' = heap w
              \<and> forLog \<in> {forLog0, forLog0 @ [annotated d i w (heap w a)]}
              \<and> forListener \<in> {forListener0, forListener0 @ [annotated d i w (heap w a)]})
       \<and> (case ProcessSingle d i (Ptr a) w of
            Inl e \<Rightarrow> False
          | Inr (r, w') \<Rightarrow> heap w' = (heap w)(a := annotated d i w (heap w a)))"
proof -
  from built_counter_ok[OF assms]
  obtain c where c: "isOptimized i \<Longrightarrow> impressionsCounter i = Ptr c" by blast
  have t: "runtimeTelemetry i = Ptr t" by (rule NewImpressionManager_fields(5)[OF assms])
  let ?P = "\<lambda>(x, now). \<not> isOptimized i \<or> Pt x = 0 \<or> Pt x < TruncateTimeFrame d now"
  let ?ps = "passes d i (cells s) w"
  have s1: "subseq (map fst (filter ?P ?ps)) (map fst ?ps)"
    by (rule subseq_map) simp
  from ProcessImpressions_result[OF c t, of d s w] s1
  have batch: "case ProcessImpressions d i s w of
            Inl e \<Rightarrow> False
          | Inr ((forLog, forListener), w') \<Rightarrow>
              heap w' = heap w
              \<and> subseq forLog (map fst ?ps) \<and> subseq forListener (map fst ?ps)"
    by auto
  from processImpression_result[OF c, of d "heap w a" forLog0 forListener0 w]
  have item: "case processImpression d i (heap w a) forLog0 forListener0 w of
            Inl e \<Rightarrow> False
          | Inr ((forLog, forListener), w') \<Rightarrow>
              heap w' = heap w
              \<and> forLog \<in> {forLog0, forLog0 @ [annotated d i w (heap w a)]}
              \<and> forListener \<in> {forListener0, forListener0 @ [annotated d i w (heap w a)]}"
    by auto
  from ProcessSingle_result[OF c, of d a w]
  have single: "case ProcessSingle d i (Ptr a) w of
            Inl e \<Rightarrow> False
          | Inr (r, w') \<Rightarrow> heap w' = (heap w)(a := annotated d i w (heap w a))"
    by auto
  from batch item single show ?thesis by blast
qed

text \<open>In the concrete setting: after the batch over the cell of f2 the results hold the
  impression with \<open>Pt\<close> 0 and the cell still holds \<open>Pt\<close> 500; after \<open>ProcessSingle\<close> the
  cell holds \<open>Pt\<close> 0.\<close>

theorem batch_works_on_copies_witness:
  "NewImpressionManager sample_deps (sample_config True True True) (Ptr 0) (Ptr 0) sample_world
     = Inr (sample_manager True True True, sample_world)
   \<and> heap sample_world 2 = \<lparr>FeatureName = ''f2'', Pt = 500, Time = 200\<rparr>
   \<and> (case ProcessImpressions sample_deps (sample_manager True True True)
             \<lparr>array = 2, len = 1\<rparr> sample_world of
        Inl e \<Rightarrow> None
      | Inr ((forLog, forListener), w') \<Rightarrow> Some (forLog, forListener, heap w' 2))
     = Some ([\<lparr>FeatureName = ''f2'', Pt = 0, Time = 200\<rparr>],
             [\<lparr>FeatureName = ''f2'', Pt = 0, Time = 200\<rparr>],
             \<lparr>FeatureName = ''f2'', Pt = 500, Time = 200\<rparr>)
   \<and> (case ProcessSingle sample_deps (sample_manager True True True) (Ptr 2) sample_world of
        Inl e \<Rightarrow> None
      | Inr (r, w') \<Rightarrow> Some (r, heap w' 2))
     = Some ((True, True), \<lparr>FeatureName = ''f2'', Pt = 0, Time = 200\<rparr>)"
proof -
  have h: "NewImpressionManager sample_deps (sample_config True True True) (Ptr 0) (Ptr 0)
      sample_world = Inr (sample_manager True True True, sample_world)"
    by (rule sample_built)
  have r: "(case ProcessImpressions sample_deps (sample_manager True True True)
             \<lparr>array = 2, len = 1\<rparr> sample_world of
        Inl e \<Rightarrow> None
      | Inr ((forLog, forListener), w') \<Rightarrow> Some (forLog, forListener))
     = Some ([\<lparr>FeatureName = ''f2'', Pt = 0, Time = 200\<rparr>],
             [\<lparr>FeatureName = ''f2'', Pt = 0, Time = 200\<rparr>])"
    by (simp add: ProcessImpressions_def cells_def processImpression_def Inc_def
        RecordImpressionsStats_def sample_defs)
  have q: "(case ProcessSingle sample_deps (sample_manager True True True) (Ptr 2) sample_world of
        Inl e \<Rightarrow> None
      | Inr (r, w') \<Rightarrow> Some r)
     = Some (True, True)"
    by (simp add: ProcessSingle_def Inc_def sample_defs)
  from batch_works_on_copies[OF h, where a = 2 and w = sample_world
      and s = "\<lparr>array = 2, len = 1\<rparr>" and ?forLog0.0 = "[]" and ?forListener0.0 = "[]"]
  show ?thesis
    using h r q
    by (auto simp: sample_world_def annotated_def sample_manager_def sample_deps_def
        lru_TestAndSet_def split: sum.splits)
qed

end
